theory Spec2Isabelle
  imports Complex_Main "HOL-Library.Product_Lexorder"
begin

section \<open>Data model\<close>

text \<open>
  The validation state and its reducer (the state module, \<^verbatim>\<open>src/unnamed/part_000\<close>),
  the plugin wiring (\<^verbatim>\<open>createValidationPlugin.ts\<close>) and the scheduling part of
  \<^verbatim>\<open>ValidationAPIService.ts\<close>.

  Positions are offsets into the document; a range is half open. The fields \<^verbatim>\<open>from\<close>,
  \<^verbatim>\<open>to\<close>, \<^verbatim>\<open>id\<close> and \<^verbatim>\<open>type\<close> carry a prime, the plain words being taken.
  Several interfaces share a field name (\<^verbatim>\<open>id\<close>, \<^verbatim>\<open>mapping\<close>, \<^verbatim>\<open>validationInput\<close>);
  such a field is written with its record, as in \<open>IValidationInFlight.id'\<close>.
\<close>

record IRange =
  from' :: int
  to' :: int

record IValidationInput = IRange +
  inputString :: string

text \<open>
  The interface file is not among the sources; the fields of an output are those of the
  objects the service test builds (\<^verbatim>\<open>createOutput\<close>).
\<close>

record IValidationOutput = IValidationInput +
  id' :: string
  type' :: string
  suggestions :: "string list"
  annotation :: string

record IValidationResponse =
  id' :: string
  validationOutputs :: "IValidationOutput list"

record IValidationError =
  id' :: string
  validationInput :: IValidationInput
  message :: string

record IStateHoverInfo =
  offsetLeft :: real
  offsetTop :: real
  left :: real
  top :: real
  height :: real
  mouseOffsetX :: real
  mouseOffsetY :: real
  heightOfSingleLine :: real

subsection \<open>The host editor: documents and position mappings\<close>

text \<open>
  The host's document is consumed through \<^verbatim>\<open>textBetween\<close> only; it is modelled as its
  flat text. A step map of the host is modelled by its position function, taking the
  position and the side a position sticks to when text is inserted exactly there
  (\<open>-1\<close> left, \<open>1\<close> right). A \<^verbatim>\<open>Mapping\<close> is a sequence of step maps:
  \<^verbatim>\<open>new Mapping()\<close> is the empty one, \<^verbatim>\<open>appendMapping\<close> appends the maps of its argument,
  and \<^verbatim>\<open>map\<close> sends a position through every step map in turn.
\<close>

type_synonym Node = string

definition textBetween :: "Node \<Rightarrow> int \<Rightarrow> int \<Rightarrow> string" where
  "textBetween doc f t = take (nat (t - f)) (drop (nat f) doc)"

type_synonym StepMap = "int \<Rightarrow> int \<Rightarrow> int"

datatype Mapping = Mapping (maps: "StepMap list")

definition appendMapping :: "Mapping \<Rightarrow> Mapping \<Rightarrow> Mapping" where
  "appendMapping m n = Mapping (maps m @ maps n)"

definition mapPos :: "Mapping \<Rightarrow> int \<Rightarrow> int \<Rightarrow> int" where
  "mapPos m pos assoc = fold (\<lambda>stepMap p. stepMap p assoc) (maps m) pos"

record IValidationInFlight =
  mapping :: Mapping
  validationInput :: IValidationInput
  id' :: string

type_synonym ExpandRanges = "IRange list \<Rightarrow> Node \<Rightarrow> IRange list"

subsection \<open>Actions\<close>

text \<open>
  One constructor per action type, carrying the action's payload. The success handler
  tests its response for being present, so the response is optional.
\<close>

datatype Action =
    NEW_HOVER_ID "string option" "IStateHoverInfo option"
  | VALIDATION_REQUEST_FOR_DIRTY_RANGES ExpandRanges
  | VALIDATION_REQUEST_FOR_DOCUMENT
  | VALIDATION_REQUEST_SUCCESS "IValidationResponse option"
  | VALIDATION_REQUEST_ERROR IValidationError
  | SELECT_VALIDATION string
  | APPLY_NEW_DIRTY_RANGES "IRange list"
  | SET_DEBUG_STATE bool

text \<open>
  A transaction of the host: its position mapping, the document it produces, its time
  stamp, and the action stored under the key \<^verbatim>\<open>VALIDATION_PLUGIN_ACTION\<close>, if any.
\<close>

record Transaction =
  mapping :: Mapping
  doc :: Node
  time :: nat
  meta :: "Action option"

subsection \<open>The scheduler's private state\<close>

text \<open>
  The fields of \<^verbatim>\<open>ValidationService\<close> that its scheduling reads and writes; the
  category lists play no part in it.
\<close>

record ValidationService =
  currentThrottle :: nat
  validationPending :: bool

subsection \<open>Plugin state\<close>

text \<open>
  The field \<^verbatim>\<open>decorations\<close> is the host's decoration set, the rendering of the state.
  Every handler computes it from the other fields and no handler reads it to compute
  another field, so it is left out of the record.
\<close>

record IPluginState =
  debug :: bool
  initialThrottle :: nat
  currentThrottle :: nat
  maxThrottle :: nat
  currentValidations :: "IValidationOutput list"
  dirtiedRanges :: "IRange list"
  selectedValidation :: "string option"
  hoverId :: "string option"
  hoverInfo :: "IStateHoverInfo option"
  trHistory :: "Transaction list"
  validationPending :: bool
  validationsInFlight :: "IValidationInFlight list"
  error :: "string option"

section \<open>Range utilities\<close>

text \<open>
  The module \<^verbatim>\<open>utils/range\<close> is not among the sources. Each of its functions that the
  reducer calls is modelled from the specification, section 4.2 (and 4.1 for mapping).
\<close>

text \<open>Two ranges overlap when they intersect; touching ranges do not.\<close>

definition overlaps :: "'a IRange_scheme \<Rightarrow> 'b IRange_scheme \<Rightarrow> bool" where
  "overlaps r s = (from' r < to' s \<and> to' r > from' s)"

text \<open>
  Modelled from the spec: \<^verbatim>\<open>findOverlappingRangeIndex\<close> of \<^verbatim>\<open>utils/range\<close> is missing.
  The spec: the first index \<open>i\<close> such that \<open>set[i]\<close> intersects \<open>range\<close>
  (\<open>set[i].from < range.to && set[i].to > range.from\<close>), else not found, which the
  reducer reads as \<open>-1\<close>.
\<close>

fun findOverlappingRangeIndex :: "'a IRange_scheme \<Rightarrow> 'b IRange_scheme list \<Rightarrow> int" where
  "findOverlappingRangeIndex range' [] = -1"
| "findOverlappingRangeIndex range' (r # rs) =
     (if from' r < to' range' \<and> to' r > from' range' then 0
      else (let i = findOverlappingRangeIndex range' rs in if i = -1 then -1 else i + 1))"

text \<open>
  Modelled from the spec: \<^verbatim>\<open>removeOverlappingRanges\<close> of \<^verbatim>\<open>utils/range\<close> is missing.
  The spec: the subset of \<open>set\<close> with no element overlapping any element of \<open>blockers\<close>.
\<close>

definition removeOverlappingRanges ::
  "'a IRange_scheme list \<Rightarrow> 'b IRange_scheme list \<Rightarrow> 'a IRange_scheme list" where
  "removeOverlappingRanges rs blockers =
     filter (\<lambda>r. findOverlappingRangeIndex r blockers = -1) rs"

text \<open>
  Modelled from the spec: \<^verbatim>\<open>mergeRanges\<close> of \<^verbatim>\<open>utils/range\<close> is missing. The spec:
  sort by \<open>from\<close>, then \<open>to\<close>; collapse overlapping or adjacent ranges into one; two
  ranges \<open>[a,b)\<close> and \<open>[c,d)\<close> merge iff \<open>c <= b\<close>.
\<close>

fun collapse :: "IRange list \<Rightarrow> IRange list" where
  "collapse (a # b # rs) =
     (if from' b \<le> to' a then collapse (a\<lparr>to' := max (to' a) (to' b)\<rparr> # rs)
      else a # collapse (b # rs))"
| "collapse rs = rs"

definition mergeRanges :: "IRange list \<Rightarrow> IRange list" where
  "mergeRanges ranges = collapse (sort_key (\<lambda>r. (from' r, to' r)) ranges)"

text \<open>
  Modelled from the spec: \<^verbatim>\<open>mapRanges\<close> and \<^verbatim>\<open>mapAndMergeRanges\<close> of \<^verbatim>\<open>utils/range\<close>
  are missing. The spec: a range is translated through the edits with a bias that expands
  rather than shrinks at its edges, so the start sticks to the left and the end to the
  right; \<open>mapThrough\<close> does so for every element, and re-merges for dirtied ranges.
\<close>

definition mapRange :: "'a IRange_scheme \<Rightarrow> Mapping \<Rightarrow> 'a IRange_scheme" where
  "mapRange range' m =
     range'\<lparr>from' := mapPos m (from' range') (-1), to' := mapPos m (to' range') 1\<rparr>"

definition mapRanges :: "'a IRange_scheme list \<Rightarrow> Mapping \<Rightarrow> 'a IRange_scheme list" where
  "mapRanges ranges m = map (\<lambda>range'. mapRange range' m) ranges"

definition mapAndMergeRanges :: "IRange list \<Rightarrow> Mapping \<Rightarrow> IRange list" where
  "mapAndMergeRanges ranges m = mergeRanges (mapRanges ranges m)"

text \<open>
  Modelled from the spec: \<^verbatim>\<open>validationInputToRange\<close> of \<^verbatim>\<open>utils/range\<close> is missing;
  by its name and type, the range of an input without its text.
\<close>

definition validationInputToRange :: "IValidationInput \<Rightarrow> IRange" where
  "validationInputToRange input = \<lparr>from' = from' input, to' = to' input\<rparr>"

text \<open>
  Modelled from the spec: \<^verbatim>\<open>getCurrentValidationsFromValidationResponse\<close> of
  \<^verbatim>\<open>utils/range\<close> is missing. The spec (4.3, transition 5): map each incoming output
  through the in-flight entry's accumulated mapping; merge the outputs into
  \<open>currentValidations\<close>, replacing any prior entries with the same identifier. The
  removal of what overlaps a dirtied range is the reducer's own next statement.
\<close>

definition getCurrentValidationsFromValidationResponse ::
  "IValidationInput \<Rightarrow> IValidationOutput list \<Rightarrow> IValidationOutput list \<Rightarrow> Mapping
     \<Rightarrow> IValidationOutput list" where
  "getCurrentValidationsFromValidationResponse input incomingOutputs currentOutputs m =
     (let newOutputs = mapRanges incomingOutputs m
      in filter (\<lambda>v. IValidationOutput.id' v \<notin> set (map IValidationOutput.id' newOutputs))
           currentOutputs @ newOutputs)"

text \<open>
  Modelled from the spec: \<^verbatim>\<open>createValidationInputsForDocument\<close> of \<^verbatim>\<open>utils/prosemirror\<close>
  is missing. The spec (4.3, transition 4): the region sent is the whole document.
\<close>

definition createValidationInputsForDocument :: "Node \<Rightarrow> IValidationInput list" where
  "createValidationInputsForDocument d =
     [\<lparr>from' = 0, to' = int (length d), inputString = textBetween d 0 (int (length d))\<rparr>]"

section \<open>The state module\<close>

text \<open>\<^verbatim>\<open>Number.prototype.toString\<close> on a time stamp: its decimal digits.\<close>

function toString :: "nat \<Rightarrow> string" where
  "toString n = (if n < 10 then [char_of (48 + n)]
                 else toString (n div 10) @ [char_of (48 + n mod 10)])"
  by pat_completeness auto
termination
  by (relation "measure (\<lambda>n. n)") auto

definition createInitialState :: "Node \<Rightarrow> nat \<Rightarrow> nat \<Rightarrow> IPluginState" where
  "createInitialState d throttleInMs maxThrottle' =
     \<lparr>debug = False,
      initialThrottle = throttleInMs,
      currentThrottle = throttleInMs,
      maxThrottle = maxThrottle',
      currentValidations = [],
      dirtiedRanges = [],
      selectedValidation = None,
      hoverId = None,
      hoverInfo = None,
      trHistory = [],
      validationPending = False,
      validationsInFlight = [],
      error = None\<rparr>"

subsection \<open>Selectors\<close>

definition selectValidationById :: "IPluginState \<Rightarrow> string \<Rightarrow> IValidationOutput option" where
  "selectValidationById state i =
     find (\<lambda>validation. IValidationOutput.id' validation = i) (currentValidations state)"

definition selectValidationInFlightById :: "IPluginState \<Rightarrow> string \<Rightarrow> IValidationInFlight option" where
  "selectValidationInFlightById state i =
     find (\<lambda>v. IValidationInFlight.id' v = i) (validationsInFlight state)"

subsection \<open>Action handlers\<close>

text \<open>
  \<^verbatim>\<open>without(array, value)\<close> of lodash drops the elements identical to \<open>value\<close>. The value
  passed is the object \<^verbatim>\<open>find\<close> returned, the first entry with the id looked for, and
  the entries of \<open>validationsInFlight\<close> are distinct objects (the reducer builds each from
  an object literal of its own), so exactly that entry is dropped: the first one equal
  to \<open>value\<close>.
\<close>

definition without :: "IValidationInFlight list \<Rightarrow> IValidationInFlight \<Rightarrow> IValidationInFlight list" where
  "without array v = remove1 v array"

definition handleSelectValidation :: "Transaction \<Rightarrow> IPluginState \<Rightarrow> string \<Rightarrow> IPluginState" where
  "handleSelectValidation tr state validationId = state\<lparr>selectedValidation := Some validationId\<rparr>"

definition handleNewHoverId ::
  "Transaction \<Rightarrow> IPluginState \<Rightarrow> string option \<Rightarrow> IStateHoverInfo option \<Rightarrow> IPluginState" where
  "handleNewHoverId tr state hoverId' hoverInfo' = state\<lparr>hoverId := hoverId', hoverInfo := hoverInfo'\<rparr>"

definition handleNewDirtyRanges :: "Transaction \<Rightarrow> IPluginState \<Rightarrow> IRange list \<Rightarrow> IPluginState" where
  "handleNewDirtyRanges tr state ranges =
     (let currentValidations' =
            filter (\<lambda>output. findOverlappingRangeIndex output ranges = -1) (currentValidations state)
      in state\<lparr>validationPending := True,
               currentValidations := currentValidations',
               dirtiedRanges := dirtiedRanges state @ ranges\<rparr>)"

definition handleValidationRequestStart ::
  "IValidationInput list \<Rightarrow> Transaction \<Rightarrow> IPluginState \<Rightarrow> IPluginState" where
  "handleValidationRequestStart validationInputs tr state =
     state\<lparr>dirtiedRanges := [],
           validationPending := False,
           validationsInFlight := validationsInFlight state @
             map (\<lambda>input. \<lparr>IValidationInFlight.mapping = Mapping [],
                           IValidationInFlight.validationInput = input,
                           IValidationInFlight.id' = toString (time tr)\<rparr>)
               validationInputs\<rparr>"

definition handleValidationRequestForDirtyRanges ::
  "Transaction \<Rightarrow> IPluginState \<Rightarrow> ExpandRanges \<Rightarrow> IPluginState" where
  "handleValidationRequestForDirtyRanges tr state expandRanges =
     (let ranges = expandRanges (dirtiedRanges state) (doc tr);
          validationInputs =
            map (\<lambda>range'. \<lparr>from' = from' range', to' = to' range',
                            inputString = textBetween (doc tr) (from' range') (to' range')\<rparr>) ranges
      in handleValidationRequestStart validationInputs tr state)"

definition handleValidationRequestForDocument :: "Transaction \<Rightarrow> IPluginState \<Rightarrow> IPluginState" where
  "handleValidationRequestForDocument tr state =
     handleValidationRequestStart (createValidationInputsForDocument (doc tr)) tr state"

definition handleValidationRequestSuccess ::
  "Transaction \<Rightarrow> IPluginState \<Rightarrow> IValidationResponse option \<Rightarrow> IPluginState" where
  "handleValidationRequestSuccess tr state response' =
     (case response' of
        None \<Rightarrow> state
      | Some response \<Rightarrow>
          (case selectValidationInFlightById state (IValidationResponse.id' response) of
             None \<Rightarrow> state
           | Some validationInFlight \<Rightarrow>
               (let currentValidations0 = getCurrentValidationsFromValidationResponse
                      (IValidationInFlight.validationInput validationInFlight)
                      (validationOutputs response)
                      (currentValidations state)
                      (IValidationInFlight.mapping validationInFlight);
                    currentValidations' = removeOverlappingRanges currentValidations0 (dirtiedRanges state)
                in state\<lparr>validationsInFlight := without (validationsInFlight state) validationInFlight,
                         currentValidations := currentValidations'\<rparr>)))"

definition handleValidationRequestError ::
  "Transaction \<Rightarrow> IPluginState \<Rightarrow> IValidationError \<Rightarrow> IPluginState" where
  "handleValidationRequestError tr state validationError =
     (let validationInFlight = selectValidationInFlightById state (IValidationError.id' validationError);
          dirtiedRanges' =
            (case validationInFlight of
               Some v \<Rightarrow> mapRanges [validationInputToRange (IValidationError.validationInput validationError)]
                           (IValidationInFlight.mapping v)
             | None \<Rightarrow> [])
      in state\<lparr>dirtiedRanges :=
                 (if length dirtiedRanges' \<noteq> 0 then mergeRanges (dirtiedRanges state @ dirtiedRanges')
                  else dirtiedRanges state),
               validationsInFlight :=
                 (case validationInFlight of
                    Some v \<Rightarrow> without (validationsInFlight state) v
                  | None \<Rightarrow> validationsInFlight state),
               error := Some (message validationError)\<rparr>)"

definition handleSetDebugState :: "Transaction \<Rightarrow> IPluginState \<Rightarrow> bool \<Rightarrow> IPluginState" where
  "handleSetDebugState tr state debug' = state\<lparr>debug := debug'\<rparr>"

subsection \<open>Reducer\<close>

text \<open>
  What the reducer does on every transaction before it looks at the action: the dirtied
  ranges and the current validations are mapped through the transaction, and every
  in-flight entry gets a new mapping, its own followed by the transaction's.
\<close>

definition remapState :: "Transaction \<Rightarrow> IPluginState \<Rightarrow> IPluginState" where
  "remapState tr incomingState =
     incomingState\<lparr>
       dirtiedRanges := mapAndMergeRanges (dirtiedRanges incomingState) (Transaction.mapping tr),
       currentValidations := mapRanges (currentValidations incomingState) (Transaction.mapping tr),
       validationsInFlight :=
         map (\<lambda>v. v\<lparr>IValidationInFlight.mapping :=
                      appendMapping (appendMapping (Mapping []) (IValidationInFlight.mapping v))
                        (Transaction.mapping tr)\<rparr>)
           (validationsInFlight incomingState)\<rparr>"

definition validationPluginReducer ::
  "Transaction \<Rightarrow> IPluginState \<Rightarrow> Action option \<Rightarrow> IPluginState" where
  "validationPluginReducer tr incomingState action =
     (let state = remapState tr incomingState
      in case action of
           None \<Rightarrow> state
         | Some (NEW_HOVER_ID h i) \<Rightarrow> handleNewHoverId tr state h i
         | Some (VALIDATION_REQUEST_FOR_DIRTY_RANGES expandRanges) \<Rightarrow>
             handleValidationRequestForDirtyRanges tr state expandRanges
         | Some VALIDATION_REQUEST_FOR_DOCUMENT \<Rightarrow> handleValidationRequestForDocument tr state
         | Some (VALIDATION_REQUEST_SUCCESS response) \<Rightarrow> handleValidationRequestSuccess tr state response
         | Some (VALIDATION_REQUEST_ERROR validationError) \<Rightarrow>
             handleValidationRequestError tr state validationError
         | Some (SELECT_VALIDATION validationId) \<Rightarrow> handleSelectValidation tr state validationId
         | Some (APPLY_NEW_DIRTY_RANGES ranges) \<Rightarrow> handleNewDirtyRanges tr state ranges
         | Some (SET_DEBUG_STATE debug') \<Rightarrow> handleSetDebugState tr state debug')"

section \<open>The plugin\<close>

text \<open>
  \<^verbatim>\<open>apply\<close> of the plugin's state field (\<^verbatim>\<open>createValidationPlugin.ts\<close>): it maps the
  ranges, keeps the transaction history, and hands the result to the reducer together
  with the action the transaction carries.
\<close>

definition apply' :: "Transaction \<Rightarrow> IPluginState \<Rightarrow> IPluginState" where
  "apply' tr state =
     (let newState = state\<lparr>
            dirtiedRanges := mapAndMergeRanges (dirtiedRanges state) (Transaction.mapping tr),
            currentValidations := mapRanges (currentValidations state) (Transaction.mapping tr),
            trHistory := (if length (trHistory state) > 25 then drop 1 (trHistory state) @ [tr]
                          else trHistory state @ [tr])\<rparr>
      in validationPluginReducer tr newState (meta tr))"

section \<open>Scheduling\<close>

text \<open>
  What a firing of the throttle timer does, as the list of effects it has on the outside:
  setting the timer again (with its delay), dispatching a transaction that carries an
  action, or calling the command that dispatches the request for the dirty ranges.
\<close>

datatype Effect =
    SetTimeout nat
  | Dispatch Action
  | ValidateDirtyRangesCommand

subsection \<open>The plugin's timer (\<^verbatim>\<open>createValidationPlugin.ts\<close>)\<close>

text \<open>
  \<^verbatim>\<open>requestValidation\<close> tests \<^verbatim>\<open>pluginState.validationInFlight\<close>, a field of the
  revision of the plugin state that this file is written against. Its declaration is
  missing from the sources (the state module at hand declares \<^verbatim>\<open>validationsInFlight\<close>
  instead), so the field is taken as a parameter: the function that reads, from a plugin
  state, whether a validation is in flight.
\<close>

definition scheduleValidation :: "IPluginState \<Rightarrow> Effect list" where
  "scheduleValidation pluginState = [SetTimeout (IPluginState.currentThrottle pluginState)]"

definition requestValidation ::
  "ExpandRanges \<Rightarrow> (IPluginState \<Rightarrow> bool) \<Rightarrow> IPluginState \<Rightarrow> Effect list" where
  "requestValidation expandRanges validationInFlight pluginState =
     (if validationInFlight pluginState then scheduleValidation pluginState
      else [Dispatch (VALIDATION_REQUEST_FOR_DIRTY_RANGES expandRanges)])"

subsection \<open>The service's timer (\<^verbatim>\<open>ValidationAPIService.ts\<close>)\<close>

text \<open>
  Modelled from the spec: the selector \<^verbatim>\<open>selectValidationsInFlight\<close> of the state module
  is missing; by its name and its use, the list of in-flight validations of the state.
\<close>

definition selectValidationsInFlight :: "IPluginState \<Rightarrow> IValidationInFlight list" where
  "selectValidationsInFlight state = validationsInFlight state"

definition ValidationService_scheduleValidation ::
  "ValidationService \<Rightarrow> ValidationService \<times> Effect list" where
  "ValidationService_scheduleValidation service =
     (if ValidationService.validationPending service then (service, [])
      else (service\<lparr>ValidationService.validationPending := True\<rparr>,
            [SetTimeout (ValidationService.currentThrottle service)]))"

definition ValidationService_requestValidation ::
  "ValidationService \<Rightarrow> IPluginState option \<Rightarrow> ValidationService \<times> Effect list" where
  "ValidationService_requestValidation service pluginState =
     (let service' = service\<lparr>ValidationService.validationPending := False\<rparr>
      in case pluginState of
           None \<Rightarrow> ValidationService_scheduleValidation service'
         | Some state \<Rightarrow>
             if length (selectValidationsInFlight state) \<noteq> 0
             then ValidationService_scheduleValidation service'
             else (service', [ValidateDirtyRangesCommand]))"

section \<open>Runs of the reducer\<close>

text \<open>
  The states reachable from the initial state: those a sequence of transactions leads to,
  each applied by the reducer with the action it carries (or none).
\<close>

definition run :: "IPluginState \<Rightarrow> Transaction list \<Rightarrow> IPluginState" where
  "run state trs = foldl (\<lambda>s tr. validationPluginReducer tr s (meta tr)) state trs"

definition runPlugin :: "IPluginState \<Rightarrow> Transaction list \<Rightarrow> IPluginState" where
  "runPlugin state trs = foldl (\<lambda>s tr. apply' tr s) state trs"

section \<open>Invariants of the specification\<close>

text \<open>
  A list of ranges is merged when each range ends before every later one starts, so that
  no two of its ranges overlap or touch.
\<close>

definition merged :: "IRange list \<Rightarrow> bool" where
  "merged ranges = sorted_wrt (\<lambda>a b. to' a < from' b) ranges"

text \<open>No two ranges of a list overlap.\<close>

fun disjointRanges :: "'a IRange_scheme list \<Rightarrow> bool" where
  "disjointRanges [] = True"
| "disjointRanges (r # rs) = ((\<forall>s \<in> set rs. \<not> overlaps r s) \<and> disjointRanges rs)"

text \<open>No current validation overlaps a dirtied range.\<close>

definition clearOfDirtiedRanges :: "IPluginState \<Rightarrow> bool" where
  "clearOfDirtiedRanges state =
     (\<forall>v \<in> set (currentValidations state). \<forall>r \<in> set (dirtiedRanges state). \<not> overlaps v r)"

definition noOverlap :: "IPluginState \<Rightarrow> bool" where
  "noOverlap state = (disjointRanges (currentValidations state) \<and> clearOfDirtiedRanges state)"

section \<open>Example values\<close>

text \<open>
  A transaction that leaves every position where it is, at a given time and with a given
  action, and the initial state of a short document: the concrete inputs of the
  instances below.
\<close>

definition exampleTr :: "nat \<Rightarrow> Action option \<Rightarrow> Transaction" where
  "exampleTr t a = \<lparr>Transaction.mapping = Mapping [], doc = ''0123456789abcdefghij'', time = t, meta = a\<rparr>"

definition exampleState :: IPluginState where
  "exampleState = createInitialState ''0123456789abcdefghij'' 2000 8000"

text \<open>An in-flight request and an output of the service for a stretch of that document.\<close>

definition exampleInFlight :: "string \<Rightarrow> int \<Rightarrow> int \<Rightarrow> IValidationInFlight" where
  "exampleInFlight i f t =
     \<lparr>IValidationInFlight.mapping = Mapping [],
      IValidationInFlight.validationInput =
        \<lparr>from' = f, to' = t, inputString = textBetween ''0123456789abcdefghij'' f t\<rparr>,
      IValidationInFlight.id' = i\<rparr>"

definition exampleOutput :: "string \<Rightarrow> int \<Rightarrow> int \<Rightarrow> IValidationOutput" where
  "exampleOutput i f t =
     \<lparr>from' = f, to' = t, inputString = textBetween ''0123456789abcdefghij'' f t,
      IValidationOutput.id' = i, type' = ''issueType'', suggestions = [],
      annotation = ''It is just a bunch of numbers''\<rparr>"

text \<open>
  Two ranges dirtied and then sent by one transition at time 1, and the failure of the
  second of the two requests.
\<close>

definition exampleBatch :: IPluginState where
  "exampleBatch =
     run (exampleState\<lparr>dirtiedRanges := [\<lparr>from' = 0, to' = 5\<rparr>, \<lparr>from' = 10, to' = 15\<rparr>]\<rparr>)
       [exampleTr 1 (Some (VALIDATION_REQUEST_FOR_DIRTY_RANGES (\<lambda>ranges d. ranges)))]"

definition exampleError :: IValidationError where
  "exampleError =
     \<lparr>IValidationError.id' = toString 1,
      IValidationError.validationInput = \<lparr>from' = 10, to' = 15, inputString = ''abcde''\<rparr>,
      message = ''network error''\<rparr>"

text \<open>A service whose timer is running, with the default throttle.\<close>

definition exampleService :: ValidationService where
  "exampleService = \<lparr>ValidationService.currentThrottle = 2000,
                      ValidationService.validationPending = True\<rparr>"

section \<open>Properties\<close>

declare toString.simps [simp del]

lemmas example_defs =
  exampleTr_def exampleState_def createInitialState_def exampleInFlight_def exampleOutput_def
  textBetween_def

lemmas remap_defs =
  remapState_def mapAndMergeRanges_def mapRanges_def mapRange_def mapPos_def mergeRanges_def
  appendMapping_def

lemmas handler_defs =
  handleNewHoverId_def handleValidationRequestForDirtyRanges_def
  handleValidationRequestForDocument_def handleValidationRequestStart_def
  handleValidationRequestSuccess_def handleValidationRequestError_def
  handleSelectValidation_def handleNewDirtyRanges_def handleSetDebugState_def

subsection \<open>The transaction history\<close>

lemma trHistory_remapState: "trHistory (remapState tr s) = trHistory s"
  by (simp add: remapState_def)

lemma trHistory_reducer: "trHistory (validationPluginReducer tr s a) = trHistory s"
  by (simp add: validationPluginReducer_def handler_defs trHistory_remapState Let_def
      split: option.splits Action.splits)

lemma trHistory_apply:
  "trHistory (apply' tr s) =
     (if length (trHistory s) > 25 then drop 1 (trHistory s) @ [tr] else trHistory s @ [tr])"
  by (simp add: apply'_def Let_def trHistory_reducer)

lemma length_trHistory_apply:
  "length (trHistory s) \<le> 26 \<Longrightarrow> length (trHistory (apply' tr s)) \<le> 26"
  by (auto simp add: trHistory_apply)

lemma length_trHistory_runPlugin:
  "length (trHistory s) \<le> 26 \<Longrightarrow> length (trHistory (runPlugin s trs)) \<le> 26"
  unfolding runPlugin_def
  by (induction trs arbitrary: s) (simp_all add: length_trHistory_apply)

text \<open>
  Claim C10. The transaction history kept in the plugin state is bounded: whatever
  transactions are applied from the initial state, where the history is empty, it never
  holds more than 26 of them. Once its length exceeds 25, applying a transaction drops
  the oldest one and appends the new one; up to there the new one is just appended.
\<close>

theorem trHistory_bounded:
  "length (trHistory (runPlugin (createInitialState d throttleInMs maxThrottle') trs)) \<le> 26
   \<and> (\<forall>state tr. 25 < length (trHistory state) \<longrightarrow>
          trHistory (apply' tr state) = drop 1 (trHistory state) @ [tr])
   \<and> (\<forall>state tr. length (trHistory state) \<le> 25 \<longrightarrow>
          trHistory (apply' tr state) = trHistory state @ [tr])"
proof (intro conjI allI impI)
  have "length (trHistory (createInitialState d throttleInMs maxThrottle')) \<le> 26"
    by (simp add: createInitialState_def)
  then show "length (trHistory (runPlugin (createInitialState d throttleInMs maxThrottle') trs)) \<le> 26"
    by (rule length_trHistory_runPlugin)
next
  fix state :: IPluginState and tr :: Transaction
  assume "25 < length (trHistory state)"
  then show "trHistory (apply' tr state) = drop 1 (trHistory state) @ [tr]"
    by (simp add: trHistory_apply)
next
  fix state :: IPluginState and tr :: Transaction
  assume "length (trHistory state) \<le> 25"
  then show "trHistory (apply' tr state) = trHistory state @ [tr]"
    by (simp add: trHistory_apply)
qed

text \<open>
  An instance: a state whose history holds 26 transactions keeps 26 after one more, the
  oldest being dropped, and forty transactions from the initial state leave at most 26.
\<close>

theorem trHistory_bounded_witness:
  "25 < length (trHistory (exampleState\<lparr>trHistory := replicate 26 (exampleTr 0 None)\<rparr>))
   \<and> trHistory (apply' (exampleTr 1 None) (exampleState\<lparr>trHistory := replicate 26 (exampleTr 0 None)\<rparr>))
       = replicate 25 (exampleTr 0 None) @ [exampleTr 1 None]
   \<and> length (trHistory (runPlugin exampleState (replicate 40 (exampleTr 0 None)))) \<le> 26"
proof -
  let ?s = "exampleState\<lparr>trHistory := replicate 26 (exampleTr 0 None)\<rparr>"
  have h: "25 < length (trHistory ?s)"
    by simp
  have "trHistory (apply' (exampleTr 1 None) ?s) = drop 1 (trHistory ?s) @ [exampleTr 1 None]"
    using trHistory_bounded [of "[]" 0 0 "[]"] h by blast
  moreover have "length (trHistory (runPlugin exampleState (replicate 40 (exampleTr 0 None)))) \<le> 26"
    using trHistory_bounded [of "''0123456789abcdefghij''" 2000 8000 "replicate 40 (exampleTr 0 None)"]
    by (simp add: exampleState_def)
  ultimately show ?thesis
    using h by simp
qed

subsection \<open>Mapping and overlap\<close>

lemma mapPos_empty: "mapPos (Mapping []) pos assoc = pos"
  by (simp add: mapPos_def)

lemma mapRange_empty: "mapRange r (Mapping []) = r"
  by (simp add: mapRange_def mapPos_empty)

lemma mapRanges_empty: "mapRanges rs (Mapping []) = rs"
  by (simp add: mapRanges_def mapRange_empty)

lemma overlaps_sym: "overlaps a b = overlaps b a"
  by (auto simp add: overlaps_def)

lemma findOverlappingRangeIndex_ge: "- 1 \<le> findOverlappingRangeIndex r rs"
  by (induction rs) (simp_all add: Let_def)

lemma findOverlappingRangeIndex_none:
  "(findOverlappingRangeIndex r rs = - 1) = (\<forall>x \<in> set rs. \<not> overlaps x r)"
proof (induction rs)
  case Nil
  then show ?case by simp
next
  case (Cons a rs)
  have "findOverlappingRangeIndex r rs + 1 \<noteq> - 1"
    using findOverlappingRangeIndex_ge [of r rs] by arith
  with Cons show ?case
    by (simp add: Let_def overlaps_def)
qed

lemma set_removeOverlappingRanges:
  "set (removeOverlappingRanges rs blockers) =
     {v \<in> set rs. \<forall>b \<in> set blockers. \<not> overlaps v b}"
  by (auto simp add: removeOverlappingRanges_def findOverlappingRangeIndex_none
      overlaps_sym [of _ "_ :: 'a IRange_scheme"])

subsection \<open>In-flight entries and their ids\<close>

lemma ids_remapState:
  "map IValidationInFlight.id' (validationsInFlight (remapState tr s)) =
   map IValidationInFlight.id' (validationsInFlight s)"
  by (simp add: remapState_def)

lemma select_remapState_None:
  "(selectValidationInFlightById (remapState tr s) i = None) =
   (\<forall>v \<in> set (validationsInFlight s). IValidationInFlight.id' v \<noteq> i)"
  by (auto simp add: selectValidationInFlightById_def remapState_def find_None_iff)

lemma select_Some_iff_exists:
  "(\<exists>v. selectValidationInFlightById s i = Some v) =
   (\<exists>e \<in> set (validationsInFlight s). IValidationInFlight.id' e = i)"
proof -
  have "(selectValidationInFlightById s i = None) =
        (\<not> (\<exists>e \<in> set (validationsInFlight s). IValidationInFlight.id' e = i))"
    by (auto simp add: selectValidationInFlightById_def find_None_iff)
  then show ?thesis by auto
qed

subsection \<open>A response for a request in flight\<close>

lemma success_currentValidations_clear:
  assumes "e \<in> set (validationsInFlight state)"
    and "IValidationInFlight.id' e = IValidationResponse.id' response"
    and "v \<in> set (currentValidations (handleValidationRequestSuccess tr state (Some response)))"
    and "r \<in> set (dirtiedRanges state)"
  shows "\<not> overlaps v r"
proof -
  obtain vif where "selectValidationInFlightById state (IValidationResponse.id' response) = Some vif"
    using assms(1,2) select_Some_iff_exists [of state "IValidationResponse.id' response"] by blast
  then have "v \<in> set (removeOverlappingRanges
      (getCurrentValidationsFromValidationResponse (IValidationInFlight.validationInput vif)
         (validationOutputs response) (currentValidations state) (IValidationInFlight.mapping vif))
      (dirtiedRanges state))"
    using assms(3) by (simp add: handleValidationRequestSuccess_def Let_def)
  then show ?thesis
    using assms(4) by (simp add: set_removeOverlappingRanges)
qed

text \<open>
  Claim C1. Take a success response whose id is the id of an entry in flight, in the
  state the reducer works on (the incoming state mapped through the transaction). An
  output of the response that, mapped through that entry's accumulated mapping, overlaps
  a range of the current \<open>dirtiedRanges\<close> is not among the \<open>currentValidations\<close> of
  the resulting state.
\<close>

theorem stale_result_rejected:
  assumes "state = remapState tr incomingState"
    and "state' = validationPluginReducer tr incomingState
                    (Some (VALIDATION_REQUEST_SUCCESS (Some response)))"
    and "e \<in> set (validationsInFlight state)"
    and "IValidationInFlight.id' e = IValidationResponse.id' response"
    and "out \<in> set (validationOutputs response)"
    and "r \<in> set (dirtiedRanges state)"
    and "overlaps (mapRange out (IValidationInFlight.mapping e)) r"
  shows "mapRange out (IValidationInFlight.mapping e) \<notin> set (currentValidations state')"
proof
  assume "mapRange out (IValidationInFlight.mapping e) \<in> set (currentValidations state')"
  then have "mapRange out (IValidationInFlight.mapping e)
      \<in> set (currentValidations (handleValidationRequestSuccess tr state (Some response)))"
    using assms(1,2) by (simp add: validationPluginReducer_def)
  then have "\<not> overlaps (mapRange out (IValidationInFlight.mapping e)) r"
    using assms(3,4,6) success_currentValidations_clear by blast
  with assms(7) show False by simp
qed

text \<open>
  The scenario of the specification: a request in flight for \<open>[5,10)\<close>, the range
  \<open>[6,7)\<close> dirtied since, then the response with an output over \<open>[5,10)\<close>.
\<close>

theorem stale_result_rejected_witness:
  "exampleInFlight ''r1'' 5 10 \<in> set (validationsInFlight (remapState (exampleTr 3 None)
       (exampleState\<lparr>validationsInFlight := [exampleInFlight ''r1'' 5 10],
                      dirtiedRanges := [\<lparr>from' = 6, to' = 7\<rparr>]\<rparr>)))
   \<and> \<lparr>from' = 6, to' = 7\<rparr> \<in> set (dirtiedRanges (remapState (exampleTr 3 None)
       (exampleState\<lparr>validationsInFlight := [exampleInFlight ''r1'' 5 10],
                      dirtiedRanges := [\<lparr>from' = 6, to' = 7\<rparr>]\<rparr>)))
   \<and> overlaps (mapRange (exampleOutput ''m1'' 5 10)
                 (IValidationInFlight.mapping (exampleInFlight ''r1'' 5 10)))
        \<lparr>from' = 6, to' = 7\<rparr>
   \<and> mapRange (exampleOutput ''m1'' 5 10) (IValidationInFlight.mapping (exampleInFlight ''r1'' 5 10))
        \<notin> set (currentValidations
             (validationPluginReducer (exampleTr 3 None)
                (exampleState\<lparr>validationsInFlight := [exampleInFlight ''r1'' 5 10],
                               dirtiedRanges := [\<lparr>from' = 6, to' = 7\<rparr>]\<rparr>)
                (Some (VALIDATION_REQUEST_SUCCESS
                   (Some \<lparr>IValidationResponse.id' = ''r1'',
                          validationOutputs = [exampleOutput ''m1'' 5 10]\<rparr>)))))"
proof -
  let ?e = "exampleInFlight ''r1'' 5 10"
  let ?s = "exampleState\<lparr>validationsInFlight := [?e], dirtiedRanges := [\<lparr>from' = 6, to' = 7\<rparr>]\<rparr>"
  let ?resp = "\<lparr>IValidationResponse.id' = ''r1'', validationOutputs = [exampleOutput ''m1'' 5 10]\<rparr>"
  have h1: "?e \<in> set (validationsInFlight (remapState (exampleTr 3 None) ?s))"
    by (simp add: remap_defs example_defs)
  have h2: "IValidationInFlight.id' ?e = IValidationResponse.id' ?resp"
    by (simp add: exampleInFlight_def)
  have h3: "exampleOutput ''m1'' 5 10 \<in> set (validationOutputs ?resp)"
    by simp
  have h4: "\<lparr>from' = 6, to' = 7\<rparr> \<in> set (dirtiedRanges (remapState (exampleTr 3 None) ?s))"
    by (simp add: remap_defs example_defs)
  have h5: "overlaps (mapRange (exampleOutput ''m1'' 5 10) (IValidationInFlight.mapping ?e))
              \<lparr>from' = 6, to' = 7\<rparr>"
    by (simp add: overlaps_def remap_defs example_defs)
  show ?thesis
    using stale_result_rejected [OF refl refl h1 h2 h3 h4 h5] h1 h4 h5 by simp
qed

subsection \<open>Newly dirtied ranges\<close>

text \<open>
  Claim C3. On \<open>RangesDirtied(ranges)\<close>, every entry of \<open>currentValidations\<close> (as mapped
  through the transaction) that overlaps one of the new ranges is absent from the
  resulting \<open>currentValidations\<close>, every entry that overlaps none of them is retained,
  in the order it had, and the resulting state has \<open>validationPending\<close> set.
\<close>

theorem ranges_dirtied_evict:
  assumes "state = remapState tr incomingState"
    and "state' = validationPluginReducer tr incomingState (Some (APPLY_NEW_DIRTY_RANGES ranges))"
  shows "(\<forall>v \<in> set (currentValidations state).
            (\<exists>r \<in> set ranges. overlaps v r) \<longrightarrow> v \<notin> set (currentValidations state'))
       \<and> (\<forall>v \<in> set (currentValidations state).
            (\<forall>r \<in> set ranges. \<not> overlaps v r) \<longrightarrow> v \<in> set (currentValidations state'))
       \<and> currentValidations state' =
            filter (\<lambda>v. \<forall>r \<in> set ranges. \<not> overlaps v r) (currentValidations state)
       \<and> validationPending state' = True"
proof -
  have cv: "currentValidations state' =
      filter (\<lambda>v. \<forall>r \<in> set ranges. \<not> overlaps v r) (currentValidations state)"
    using assms
    by (simp add: validationPluginReducer_def handleNewDirtyRanges_def Let_def
        findOverlappingRangeIndex_none overlaps_sym [of _ "_ :: IValidationOutput"])
  have "validationPending state' = True"
    using assms by (simp add: validationPluginReducer_def handleNewDirtyRanges_def Let_def)
  with cv show ?thesis by auto
qed

text \<open>
  An instance: of three validations over \<open>[0,4)\<close>, \<open>[4,8)\<close> and \<open>[12,16)\<close>, dirtying
  \<open>[7,12)\<close> evicts the second, which it overlaps, and keeps the two it only touches or
  misses.
\<close>

theorem ranges_dirtied_evict_witness:
  "exampleOutput ''b'' 4 8 \<in> set (currentValidations (remapState (exampleTr 3 None)
       (exampleState\<lparr>currentValidations :=
          [exampleOutput ''a'' 0 4, exampleOutput ''b'' 4 8, exampleOutput ''c'' 12 16]\<rparr>)))
   \<and> overlaps (exampleOutput ''b'' 4 8) \<lparr>from' = 7, to' = 12\<rparr>
   \<and> currentValidations (validationPluginReducer (exampleTr 3 None)
        (exampleState\<lparr>currentValidations :=
          [exampleOutput ''a'' 0 4, exampleOutput ''b'' 4 8, exampleOutput ''c'' 12 16]\<rparr>)
        (Some (APPLY_NEW_DIRTY_RANGES [\<lparr>from' = 7, to' = 12\<rparr>])))
      = [exampleOutput ''a'' 0 4, exampleOutput ''c'' 12 16]"
proof -
  let ?cv = "[exampleOutput ''a'' 0 4, exampleOutput ''b'' 4 8, exampleOutput ''c'' 12 16]"
  let ?s = "exampleState\<lparr>currentValidations := ?cv\<rparr>"
  have cv: "currentValidations (remapState (exampleTr 3 None) ?s) = ?cv"
    by (simp add: remap_defs exampleTr_def)
  have "currentValidations (validationPluginReducer (exampleTr 3 None) ?s
        (Some (APPLY_NEW_DIRTY_RANGES [\<lparr>from' = 7, to' = 12\<rparr>])))
      = filter (\<lambda>v. \<forall>r \<in> set [\<lparr>from' = 7, to' = 12\<rparr>]. \<not> overlaps v r)
          (currentValidations (remapState (exampleTr 3 None) ?s))"
    using ranges_dirtied_evict [OF refl refl, where ranges = "[\<lparr>from' = 7, to' = 12\<rparr>]"
          and tr = "exampleTr 3 None" and incomingState = ?s] by blast
  then show ?thesis
    unfolding cv by (simp add: overlaps_def exampleOutput_def)
qed

subsection \<open>A response for no request in flight\<close>

text \<open>
  Claim C9. When no entry of \<open>validationsInFlight\<close> has the id of a success response,
  the resulting state is the state the mapping step alone produces, the state a
  transaction without an action leads to: the action changes nothing, so
  \<open>currentValidations\<close>, \<open>validationsInFlight\<close>, \<open>dirtiedRanges\<close> and \<open>error\<close> are
  as the mapping step leaves them.
\<close>

theorem success_unknown_id:
  assumes "\<forall>v \<in> set (validationsInFlight incomingState).
             IValidationInFlight.id' v \<noteq> IValidationResponse.id' response"
  shows "validationPluginReducer tr incomingState (Some (VALIDATION_REQUEST_SUCCESS (Some response)))
           = remapState tr incomingState
         \<and> validationPluginReducer tr incomingState (Some (VALIDATION_REQUEST_SUCCESS (Some response)))
           = validationPluginReducer tr incomingState None"
proof -
  have "selectValidationInFlightById (remapState tr incomingState) (IValidationResponse.id' response) = None"
    using assms by (simp add: select_remapState_None)
  then show ?thesis
    by (simp add: validationPluginReducer_def handleValidationRequestSuccess_def)
qed

text \<open>An instance: the request \<open>r1\<close> is in flight and a response for \<open>r2\<close> arrives.\<close>

theorem success_unknown_id_witness:
  "IValidationInFlight.id' (exampleInFlight ''r1'' 0 10) \<noteq> ''r2''
   \<and> validationPluginReducer (exampleTr 5 None)
        (exampleState\<lparr>validationsInFlight := [exampleInFlight ''r1'' 0 10]\<rparr>)
        (Some (VALIDATION_REQUEST_SUCCESS
           (Some \<lparr>IValidationResponse.id' = ''r2'',
                  validationOutputs = [exampleOutput ''m1'' 2 4]\<rparr>)))
      = remapState (exampleTr 5 None) (exampleState\<lparr>validationsInFlight := [exampleInFlight ''r1'' 0 10]\<rparr>)"
proof -
  let ?s = "exampleState\<lparr>validationsInFlight := [exampleInFlight ''r1'' 0 10]\<rparr>"
  let ?resp = "\<lparr>IValidationResponse.id' = ''r2'', validationOutputs = [exampleOutput ''m1'' 2 4]\<rparr>"
  have h: "\<forall>v \<in> set (validationsInFlight ?s).
             IValidationInFlight.id' v \<noteq> IValidationResponse.id' ?resp"
    by (simp add: exampleInFlight_def)
  show ?thesis
    using success_unknown_id [OF h, of "exampleTr 5 None"] by (simp add: exampleInFlight_def)
qed

subsection \<open>Requests\<close>

text \<open>
  Claim C5. A \<open>RequestForDirtyRanges(expandFn)\<close> transition leaves \<open>dirtiedRanges\<close> empty
  and \<open>validationPending\<close> false, and \<open>validationsInFlight\<close> is the previous list (as
  mapped through the transaction) followed by one entry per range that \<open>expandFn\<close>
  returns for the previous \<open>dirtiedRanges\<close>; each entry carries the empty mapping, which
  leaves every range where it is, and an input with that range and the document's text
  between its ends. In particular, with \<open>dirtiedRanges = [[0,10)]\<close>, an identity
  \<open>expandFn\<close> and a transaction that moves nothing, exactly one entry is appended, its
  input over \<open>[0,10)\<close>.
\<close>

theorem request_for_dirty_ranges:
  "(let state = remapState tr incomingState;
        ranges = expandRanges (dirtiedRanges state) (doc tr);
        state' = validationPluginReducer tr incomingState
                   (Some (VALIDATION_REQUEST_FOR_DIRTY_RANGES expandRanges))
    in dirtiedRanges state' = []
       \<and> validationPending state' = False
       \<and> validationsInFlight state' = validationsInFlight state @
            map (\<lambda>r. \<lparr>IValidationInFlight.mapping = Mapping [],
                       IValidationInFlight.validationInput =
                         \<lparr>from' = from' r, to' = to' r,
                          inputString = textBetween (doc tr) (from' r) (to' r)\<rparr>,
                       IValidationInFlight.id' = toString (time tr)\<rparr>) ranges
       \<and> currentValidations state' = currentValidations state
       \<and> error state' = error state)
   \<and> mapRange r (Mapping []) = r
   \<and> (let state' = validationPluginReducer
                      (tr\<lparr>Transaction.mapping := Mapping [], doc := ''0123456789abcdefghij''\<rparr>)
                      (incomingState\<lparr>dirtiedRanges := [\<lparr>from' = 0, to' = 10\<rparr>]\<rparr>)
                      (Some (VALIDATION_REQUEST_FOR_DIRTY_RANGES (\<lambda>ranges d. ranges)))
       in dirtiedRanges state' = []
          \<and> map IValidationInFlight.validationInput (validationsInFlight state') =
              map IValidationInFlight.validationInput (validationsInFlight incomingState) @
              [\<lparr>from' = 0, to' = 10, inputString = ''0123456789''\<rparr>])"
  by (simp add: validationPluginReducer_def handleValidationRequestForDirtyRanges_def
      handleValidationRequestStart_def Let_def mapRange_empty remapState_def
      mapAndMergeRanges_def mapRanges_empty mergeRanges_def textBetween_def comp_def)

text \<open>
  Claim C8, as the code has it. Every entry that one \<open>RequestForDirtyRanges\<close> or
  \<open>RequestForWholeDocument\<close> transition appends carries the same id, the decimal string
  of the transaction's time stamp; the entries already in flight keep their ids.
\<close>

theorem appended_ids:
  assumes "a = VALIDATION_REQUEST_FOR_DIRTY_RANGES expandRanges \<or> a = VALIDATION_REQUEST_FOR_DOCUMENT"
  shows "\<exists>new. validationsInFlight (validationPluginReducer tr incomingState (Some a))
                 = validationsInFlight (remapState tr incomingState) @ new
               \<and> map IValidationInFlight.id' new = replicate (length new) (toString (time tr))
               \<and> map IValidationInFlight.id' (validationsInFlight (remapState tr incomingState))
                 = map IValidationInFlight.id' (validationsInFlight incomingState)"
  using assms
  by (auto simp add: validationPluginReducer_def handleValidationRequestForDirtyRanges_def
      handleValidationRequestForDocument_def
      handleValidationRequestStart_def Let_def remapState_def comp_def map_replicate_const)

text \<open>
  The claim as it was stated fails where a transition appends two entries: with the
  ranges \<open>[0,5)\<close> and \<open>[10,15)\<close> dirtied and an identity \<open>expandFn\<close>, the two entries
  appended at time 1 both have the id of that time.
\<close>

theorem appended_ids_counterexample:
  "map IValidationInFlight.id'
     (validationsInFlight
        (validationPluginReducer (exampleTr 1 None)
           (exampleState\<lparr>dirtiedRanges := [\<lparr>from' = 0, to' = 5\<rparr>, \<lparr>from' = 10, to' = 15\<rparr>]\<rparr>)
           (Some (VALIDATION_REQUEST_FOR_DIRTY_RANGES (\<lambda>ranges d. ranges)))))
   = [toString 1, toString 1]
   \<and> \<not> distinct (map IValidationInFlight.id'
     (validationsInFlight
        (validationPluginReducer (exampleTr 1 None)
           (exampleState\<lparr>dirtiedRanges := [\<lparr>from' = 0, to' = 5\<rparr>, \<lparr>from' = 10, to' = 15\<rparr>]\<rparr>)
           (Some (VALIDATION_REQUEST_FOR_DIRTY_RANGES (\<lambda>ranges d. ranges))))))"
  by (simp add: validationPluginReducer_def handleValidationRequestForDirtyRanges_def
      handleValidationRequestStart_def Let_def mapRange_empty remapState_def
      mapAndMergeRanges_def mapRanges_empty mergeRanges_def exampleTr_def exampleState_def
      createInitialState_def)

theorem appended_ids_witness:
  "map IValidationInFlight.id'
     (validationsInFlight (validationPluginReducer (exampleTr 7 None)
        (exampleState\<lparr>validationsInFlight := [exampleInFlight ''r1'' 0 10]\<rparr>)
        (Some VALIDATION_REQUEST_FOR_DOCUMENT)))
   = [''r1'', toString 7]"
proof -
  let ?s = "exampleState\<lparr>validationsInFlight := [exampleInFlight ''r1'' 0 10]\<rparr>"
  obtain new where new:
    "validationsInFlight (validationPluginReducer (exampleTr 7 None) ?s (Some VALIDATION_REQUEST_FOR_DOCUMENT))
       = validationsInFlight (remapState (exampleTr 7 None) ?s) @ new"
    "map IValidationInFlight.id' new = replicate (length new) (toString (time (exampleTr 7 None)))"
    "map IValidationInFlight.id' (validationsInFlight (remapState (exampleTr 7 None) ?s))
       = map IValidationInFlight.id' (validationsInFlight ?s)"
    using appended_ids [of VALIDATION_REQUEST_FOR_DOCUMENT _ "exampleTr 7 None" ?s] by blast
  have "length (validationsInFlight (validationPluginReducer (exampleTr 7 None) ?s
          (Some VALIDATION_REQUEST_FOR_DOCUMENT))) = 2"
    by (simp add: validationPluginReducer_def handleValidationRequestForDocument_def
        handleValidationRequestStart_def createValidationInputsForDocument_def remapState_def)
  then have "length new = 1"
    using new(1) by (simp add: remapState_def)
  then show ?thesis
    using new by (simp add: exampleInFlight_def exampleTr_def)
qed

subsection \<open>The timer fires while a request is in flight\<close>

text \<open>
  The service's timer defers: with a request in flight it sets the timer again, for its
  current throttle, and calls no command.
\<close>

lemma ValidationService_requestValidation_defers:
  "validationsInFlight state \<noteq> [] \<Longrightarrow>
   ValidationService_requestValidation service (Some state) =
     (service\<lparr>ValidationService.validationPending := True\<rparr>,
      [SetTimeout (ValidationService.currentThrottle service)])"
  by (simp add: ValidationService_requestValidation_def ValidationService_scheduleValidation_def
      selectValidationsInFlight_def)

text \<open>
  Claim C2. When the throttle timer fires while a validation is in flight, the firing
  dispatches no request for the dirty ranges and sets the timer again, for the current
  throttle. For the plugin's timer, in flight is what the field \<open>validationInFlight\<close>
  of its state says; for the service's timer, it is that \<open>validationsInFlight\<close> is not
  empty, and the firing calls no command either. With nothing in flight the plugin's
  timer dispatches the request.
\<close>

theorem timer_defers_while_in_flight:
  "(validationInFlight pluginState \<longrightarrow>
      requestValidation expandRanges validationInFlight pluginState
        = [SetTimeout (IPluginState.currentThrottle pluginState)]
      \<and> (\<forall>a. Dispatch a \<notin> set (requestValidation expandRanges validationInFlight pluginState)))
   \<and> (validationsInFlight state \<noteq> [] \<longrightarrow>
      snd (ValidationService_requestValidation service (Some state))
        = [SetTimeout (ValidationService.currentThrottle service)]
      \<and> (\<forall>a. Dispatch a \<notin> set (snd (ValidationService_requestValidation service (Some state))))
      \<and> ValidateDirtyRangesCommand
           \<notin> set (snd (ValidationService_requestValidation service (Some state))))
   \<and> (\<not> validationInFlight pluginState \<longrightarrow>
      requestValidation expandRanges validationInFlight pluginState
        = [Dispatch (VALIDATION_REQUEST_FOR_DIRTY_RANGES expandRanges)])"
  by (simp add: requestValidation_def scheduleValidation_def
      ValidationService_requestValidation_defers)

text \<open>
  An instance: the request \<open>r1\<close> is in flight, and the field of the plugin's state
  says so. Both timers are set again for 2000 ms and nothing is dispatched.
\<close>

theorem timer_defers_while_in_flight_witness:
  "validationsInFlight (exampleState\<lparr>validationsInFlight := [exampleInFlight ''r1'' 0 10]\<rparr>) \<noteq> []
   \<and> requestValidation (\<lambda>ranges d. ranges) (\<lambda>s. validationsInFlight s \<noteq> [])
        (exampleState\<lparr>validationsInFlight := [exampleInFlight ''r1'' 0 10]\<rparr>)
       = [SetTimeout 2000]
   \<and> snd (ValidationService_requestValidation exampleService
        (Some (exampleState\<lparr>validationsInFlight := [exampleInFlight ''r1'' 0 10]\<rparr>)))
       = [SetTimeout 2000]"
proof -
  let ?s = "exampleState\<lparr>validationsInFlight := [exampleInFlight ''r1'' 0 10]\<rparr>"
  have h: "validationsInFlight ?s \<noteq> []"
    by simp
  have "requestValidation (\<lambda>ranges d. ranges) (\<lambda>s. validationsInFlight s \<noteq> []) ?s
          = [SetTimeout (IPluginState.currentThrottle ?s)]"
    using timer_defers_while_in_flight
      [where validationInFlight = "\<lambda>s. validationsInFlight s \<noteq> []" and pluginState = ?s
         and expandRanges = "\<lambda>ranges d. ranges" and state = ?s and service = exampleService] h
    by blast
  moreover have "snd (ValidationService_requestValidation exampleService (Some ?s))
          = [SetTimeout (ValidationService.currentThrottle exampleService)]"
    using timer_defers_while_in_flight
      [where validationInFlight = "\<lambda>s. validationsInFlight s \<noteq> []" and pluginState = ?s
         and expandRanges = "\<lambda>ranges d. ranges" and state = ?s and service = exampleService] h
    by blast
  ultimately show ?thesis
    using h by (simp add: exampleState_def createInitialState_def exampleService_def)
qed

subsection \<open>Merged dirtied ranges\<close>

lemma from_collapse: "from' ` set (collapse xs) \<subseteq> from' ` set xs"
  by (induction xs rule: collapse.induct) auto

lemma merged_collapse: "sorted (map from' xs) \<Longrightarrow> merged (collapse xs)"
proof (induction xs rule: collapse.induct)
  case (1 a b rs)
  show ?case
  proof (cases "from' b \<le> to' a")
    case True
    have "sorted (map from' (a\<lparr>to' := max (to' a) (to' b)\<rparr> # rs))"
      using "1.prems" by simp
    with True "1.IH"(1) show ?thesis by simp
  next
    case False
    have tail: "merged (collapse (b # rs))"
      using False "1.IH"(2) "1.prems" by simp
    have "\<forall>y \<in> set (collapse (b # rs)). to' a < from' y"
    proof
      fix y assume "y \<in> set (collapse (b # rs))"
      then have "from' y \<in> from' ` set (b # rs)"
        using from_collapse [of "b # rs"] by blast
      then have "from' b \<le> from' y"
        using "1.prems" by auto
      with False show "to' a < from' y" by simp
    qed
    with tail False show ?thesis by (simp add: merged_def)
  qed
qed (simp_all add: merged_def)

lemma sorted_from_sort_key: "sorted (map from' (sort_key (\<lambda>r. (from' r, to' r)) rs))"
proof -
  have "sorted (map (\<lambda>r. (from' r, to' r)) (sort_key (\<lambda>r. (from' r, to' r)) rs))"
    by (rule sorted_sort_key)
  then have "sorted_wrt (\<lambda>x y. (from' x, to' x) \<le> (from' y, to' y))
               (sort_key (\<lambda>r. (from' r, to' r)) rs)"
    by (simp add: sorted_map)
  then have "sorted_wrt (\<lambda>x y. from' x \<le> from' y) (sort_key (\<lambda>r. (from' r, to' r)) rs)"
    by (rule sorted_wrt_mono_rel [rotated]) (auto simp add: less_eq_prod_def)
  then show ?thesis by (simp add: sorted_map)
qed

lemma merged_mergeRanges: "merged (mergeRanges rs)"
  by (simp add: mergeRanges_def merged_collapse sorted_from_sort_key)

lemma merged_remapState: "merged (dirtiedRanges (remapState tr s))"
  by (simp add: remapState_def mapAndMergeRanges_def merged_mergeRanges)

text \<open>
  Claim C7, as the code has it. \<open>dirtiedRanges\<close> is merged in the initial state and after
  every transition but a \<open>RangesDirtied\<close> one. A \<open>RangesDirtied(ranges)\<close> transition
  leaves the previous ranges, mapped and merged, followed by the new ranges as they came;
  the mapping step of the next transition merges them.
\<close>

theorem dirtiedRanges_merged:
  "merged (dirtiedRanges (createInitialState d throttleInMs maxThrottle'))
   \<and> ((\<forall>ranges. a \<noteq> Some (APPLY_NEW_DIRTY_RANGES ranges)) \<longrightarrow>
        merged (dirtiedRanges (validationPluginReducer tr incomingState a)))
   \<and> dirtiedRanges (validationPluginReducer tr incomingState (Some (APPLY_NEW_DIRTY_RANGES ranges)))
       = mapAndMergeRanges (dirtiedRanges incomingState) (Transaction.mapping tr) @ ranges"
proof (intro conjI impI)
  show "merged (dirtiedRanges (createInitialState d throttleInMs maxThrottle'))"
    by (simp add: createInitialState_def merged_def)
next
  assume a: "\<forall>ranges. a \<noteq> Some (APPLY_NEW_DIRTY_RANGES ranges)"
  have nil: "merged []" by (simp add: merged_def)
  show "merged (dirtiedRanges (validationPluginReducer tr incomingState a))"
  proof (cases a)
    case None
    then show ?thesis by (simp add: validationPluginReducer_def merged_remapState)
  next
    case (Some act)
    with a show ?thesis
      by (cases act)
        (simp_all add: validationPluginReducer_def handler_defs Let_def merged_remapState
          merged_mergeRanges nil split: option.splits)
  qed
next
  show "dirtiedRanges (validationPluginReducer tr incomingState (Some (APPLY_NEW_DIRTY_RANGES ranges)))
       = mapAndMergeRanges (dirtiedRanges incomingState) (Transaction.mapping tr) @ ranges"
    by (simp add: validationPluginReducer_def handleNewDirtyRanges_def Let_def remapState_def)
qed

text \<open>
  The claim as it was stated fails right after a \<open>RangesDirtied\<close> transition: from the
  initial state, dirtying \<open>[0,10)\<close> and then \<open>[5,15)\<close> leaves the two overlapping
  ranges side by side.
\<close>

theorem dirtiedRanges_merged_counterexample:
  "\<not> merged (dirtiedRanges (run exampleState
       [exampleTr 1 (Some (APPLY_NEW_DIRTY_RANGES [\<lparr>from' = 0, to' = 10\<rparr>])),
        exampleTr 2 (Some (APPLY_NEW_DIRTY_RANGES [\<lparr>from' = 5, to' = 15\<rparr>]))]))"
  by (simp add: run_def validationPluginReducer_def handleNewDirtyRanges_def Let_def
      remap_defs example_defs merged_def)

text \<open>An instance: one more transaction, without an action, merges them into \<open>[0,15)\<close>.\<close>

theorem dirtiedRanges_merged_witness:
  "dirtiedRanges (run exampleState
       [exampleTr 1 (Some (APPLY_NEW_DIRTY_RANGES [\<lparr>from' = 0, to' = 10\<rparr>])),
        exampleTr 2 (Some (APPLY_NEW_DIRTY_RANGES [\<lparr>from' = 5, to' = 15\<rparr>])),
        exampleTr 3 None]) = [\<lparr>from' = 0, to' = 15\<rparr>]
   \<and> merged (dirtiedRanges (run exampleState
       [exampleTr 1 (Some (APPLY_NEW_DIRTY_RANGES [\<lparr>from' = 0, to' = 10\<rparr>])),
        exampleTr 2 (Some (APPLY_NEW_DIRTY_RANGES [\<lparr>from' = 5, to' = 15\<rparr>])),
        exampleTr 3 None]))"
proof -
  let ?trs = "[exampleTr 1 (Some (APPLY_NEW_DIRTY_RANGES [\<lparr>from' = 0, to' = 10\<rparr>])),
        exampleTr 2 (Some (APPLY_NEW_DIRTY_RANGES [\<lparr>from' = 5, to' = 15\<rparr>]))]"
  have n: "\<forall>ranges. (None :: Action option) \<noteq> Some (APPLY_NEW_DIRTY_RANGES ranges)"
    by simp
  have "merged (dirtiedRanges (validationPluginReducer (exampleTr 3 None) (run exampleState ?trs) None))"
    using dirtiedRanges_merged [of "[]" 0 0 None "exampleTr 3 None" "run exampleState ?trs" "[]"] n
    by blast
  moreover have "dirtiedRanges (run exampleState (?trs @ [exampleTr 3 None])) = [\<lparr>from' = 0, to' = 15\<rparr>]"
    by (simp add: run_def validationPluginReducer_def handleNewDirtyRanges_def Let_def
      remap_defs example_defs)
  ultimately show ?thesis
    by (simp add: run_def exampleTr_def)
qed

subsection \<open>A failed request\<close>

lemma find_Some_split:
  "find P xs = Some e \<Longrightarrow>
   \<exists>ys zs. xs = ys @ e # zs \<and> (\<forall>y \<in> set ys. \<not> P y) \<and> P e \<and> remove1 e xs = ys @ zs"
proof (induction xs)
  case Nil
  then show ?case by simp
next
  case (Cons x xs)
  show ?case
  proof (cases "P x")
    case True
    with Cons.prems have "x = e" by simp
    with True show ?thesis by (intro exI [of _ "[]"] exI [of _ xs]) simp
  next
    case False
    with Cons.prems have "find P xs = Some e" by simp
    then obtain ys zs where yz: "xs = ys @ e # zs" "\<forall>y \<in> set ys. \<not> P y" "P e" "remove1 e xs = ys @ zs"
      using Cons.IH by blast
    from False yz(3) have "x \<noteq> e" by auto
    with False yz show ?thesis
      by (intro exI [of _ "x # ys"] exI [of _ zs]) simp
  qed
qed

text \<open>
  Claim C6, as the code has it. On \<open>RequestFailed\<close>, when an entry in flight has the id
  of the error, the first such entry is removed from \<open>validationsInFlight\<close>; the range
  of the input that the error carries, mapped through that entry's accumulated mapping,
  is merged into \<open>dirtiedRanges\<close> (it is the entry's own input range when the error
  carries the entry's input); and \<open>error\<close> is the error's message. When no entry has
  that id, only the message is recorded.
\<close>

theorem request_failed:
  assumes "state = remapState tr incomingState"
    and "state' = validationPluginReducer tr incomingState
                    (Some (VALIDATION_REQUEST_ERROR validationError))"
  shows "(\<forall>e. selectValidationInFlightById state (IValidationError.id' validationError) = Some e \<longrightarrow>
            (\<exists>before after.
                validationsInFlight state = before @ e # after
              \<and> (\<forall>v \<in> set before. IValidationInFlight.id' v \<noteq> IValidationError.id' validationError)
              \<and> IValidationInFlight.id' e = IValidationError.id' validationError
              \<and> validationsInFlight state' = before @ after)
          \<and> dirtiedRanges state' =
              mergeRanges (dirtiedRanges state @
                [mapRange (validationInputToRange (IValidationError.validationInput validationError))
                   (IValidationInFlight.mapping e)])
          \<and> (IValidationError.validationInput validationError = IValidationInFlight.validationInput e \<longrightarrow>
               dirtiedRanges state' =
                 mergeRanges (dirtiedRanges state @
                   [mapRange (validationInputToRange (IValidationInFlight.validationInput e))
                      (IValidationInFlight.mapping e)])))
       \<and> ((\<forall>v \<in> set (validationsInFlight state).
              IValidationInFlight.id' v \<noteq> IValidationError.id' validationError) \<longrightarrow>
            state' = state\<lparr>error := Some (message validationError)\<rparr>)
       \<and> error state' = Some (message validationError)"
proof (intro conjI allI impI)
  fix e
  assume sel: "selectValidationInFlightById state (IValidationError.id' validationError) = Some e"
  then obtain before after where ba:
    "validationsInFlight state = before @ e # after"
    "\<forall>v \<in> set before. IValidationInFlight.id' v \<noteq> IValidationError.id' validationError"
    "IValidationInFlight.id' e = IValidationError.id' validationError"
    "remove1 e (validationsInFlight state) = before @ after"
    unfolding selectValidationInFlightById_def by (fastforce dest!: find_Some_split)
  have "validationsInFlight state' = remove1 e (validationsInFlight state)"
    using assms sel
    by (simp add: validationPluginReducer_def handleValidationRequestError_def Let_def without_def)
  with ba show "\<exists>before after.
                validationsInFlight state = before @ e # after
              \<and> (\<forall>v \<in> set before. IValidationInFlight.id' v \<noteq> IValidationError.id' validationError)
              \<and> IValidationInFlight.id' e = IValidationError.id' validationError
              \<and> validationsInFlight state' = before @ after"
    by auto
  show dr: "dirtiedRanges state' =
              mergeRanges (dirtiedRanges state @
                [mapRange (validationInputToRange (IValidationError.validationInput validationError))
                   (IValidationInFlight.mapping e)])"
    using assms sel
    by (simp add: validationPluginReducer_def handleValidationRequestError_def Let_def mapRanges_def)
  assume "IValidationError.validationInput validationError = IValidationInFlight.validationInput e"
  with dr show "dirtiedRanges state' =
                 mergeRanges (dirtiedRanges state @
                   [mapRange (validationInputToRange (IValidationInFlight.validationInput e))
                      (IValidationInFlight.mapping e)])"
    by simp
next
  assume "\<forall>v \<in> set (validationsInFlight state).
              IValidationInFlight.id' v \<noteq> IValidationError.id' validationError"
  then have "selectValidationInFlightById state (IValidationError.id' validationError) = None"
    by (auto simp add: selectValidationInFlightById_def find_None_iff)
  then show "state' = state\<lparr>error := Some (message validationError)\<rparr>"
    using assms
    by (simp add: validationPluginReducer_def handleValidationRequestError_def Let_def)
next
  show "error state' = Some (message validationError)"
    using assms
    by (simp add: validationPluginReducer_def handleValidationRequestError_def Let_def)
qed

text \<open>
  The claim as it was stated speaks of the entry's original input range. Two requests
  started by one transition share their id; when the second of them fails, it is the
  first entry, for \<open>[0,5)\<close>, that is removed, and the range of the error's input,
  \<open>[10,15)\<close>, that is dirtied: the entry removed is not the one whose range is dirtied.
\<close>

theorem request_failed_counterexample:
  "map IValidationInFlight.validationInput (validationsInFlight exampleBatch)
     = [\<lparr>from' = 0, to' = 5, inputString = ''01234''\<rparr>,
        \<lparr>from' = 10, to' = 15, inputString = ''abcde''\<rparr>]
   \<and> selectValidationInFlightById (remapState (exampleTr 2 None) exampleBatch)
        (IValidationError.id' exampleError)
     = Some \<lparr>IValidationInFlight.mapping = Mapping [],
             IValidationInFlight.validationInput = \<lparr>from' = 0, to' = 5, inputString = ''01234''\<rparr>,
             IValidationInFlight.id' = toString 1\<rparr>
   \<and> map IValidationInFlight.validationInput (validationsInFlight
        (validationPluginReducer (exampleTr 2 None) exampleBatch
           (Some (VALIDATION_REQUEST_ERROR exampleError))))
     = [\<lparr>from' = 10, to' = 15, inputString = ''abcde''\<rparr>]
   \<and> dirtiedRanges
        (validationPluginReducer (exampleTr 2 None) exampleBatch
           (Some (VALIDATION_REQUEST_ERROR exampleError)))
     = [\<lparr>from' = 10, to' = 15\<rparr>]
   \<and> dirtiedRanges
        (validationPluginReducer (exampleTr 2 None) exampleBatch
           (Some (VALIDATION_REQUEST_ERROR exampleError)))
     \<noteq> mergeRanges
         (dirtiedRanges (remapState (exampleTr 2 None) exampleBatch)
          @ [mapRange (validationInputToRange \<lparr>from' = 0, to' = 5, inputString = ''01234''\<rparr>)
               (Mapping [])])"
  by (simp add: exampleBatch_def exampleError_def run_def validationPluginReducer_def
      handleValidationRequestForDirtyRanges_def handleValidationRequestStart_def
      handleValidationRequestError_def Let_def selectValidationInFlightById_def without_def
      validationInputToRange_def remap_defs example_defs)

text \<open>
  The scenario of the specification: one request \<open>r1\<close> in flight for \<open>[0,10)\<close>, and
  \<open>RequestFailed\<close> for \<open>r1\<close> with the message \<open>network error\<close>.
\<close>

theorem request_failed_witness:
  "selectValidationInFlightById
      (remapState (exampleTr 4 None) (exampleState\<lparr>validationsInFlight := [exampleInFlight ''r1'' 0 10]\<rparr>))
      ''r1'' = Some (exampleInFlight ''r1'' 0 10)
   \<and> dirtiedRanges (validationPluginReducer (exampleTr 4 None)
        (exampleState\<lparr>validationsInFlight := [exampleInFlight ''r1'' 0 10]\<rparr>)
        (Some (VALIDATION_REQUEST_ERROR
           \<lparr>IValidationError.id' = ''r1'',
            IValidationError.validationInput = \<lparr>from' = 0, to' = 10, inputString = ''0123456789''\<rparr>,
            message = ''network error''\<rparr>))) = [\<lparr>from' = 0, to' = 10\<rparr>]
   \<and> validationsInFlight (validationPluginReducer (exampleTr 4 None)
        (exampleState\<lparr>validationsInFlight := [exampleInFlight ''r1'' 0 10]\<rparr>)
        (Some (VALIDATION_REQUEST_ERROR
           \<lparr>IValidationError.id' = ''r1'',
            IValidationError.validationInput = \<lparr>from' = 0, to' = 10, inputString = ''0123456789''\<rparr>,
            message = ''network error''\<rparr>))) = []
   \<and> error (validationPluginReducer (exampleTr 4 None)
        (exampleState\<lparr>validationsInFlight := [exampleInFlight ''r1'' 0 10]\<rparr>)
        (Some (VALIDATION_REQUEST_ERROR
           \<lparr>IValidationError.id' = ''r1'',
            IValidationError.validationInput = \<lparr>from' = 0, to' = 10, inputString = ''0123456789''\<rparr>,
            message = ''network error''\<rparr>))) = Some ''network error''"
proof -
  let ?e = "exampleInFlight ''r1'' 0 10"
  let ?s = "exampleState\<lparr>validationsInFlight := [?e]\<rparr>"
  let ?err = "\<lparr>IValidationError.id' = ''r1'',
            IValidationError.validationInput = \<lparr>from' = 0, to' = 10, inputString = ''0123456789''\<rparr>,
            message = ''network error''\<rparr>"
  let ?s' = "validationPluginReducer (exampleTr 4 None) ?s (Some (VALIDATION_REQUEST_ERROR ?err))"
  have vs: "validationsInFlight (remapState (exampleTr 4 None) ?s) = [?e]"
    by (simp add: remap_defs example_defs)
  have dr: "dirtiedRanges (remapState (exampleTr 4 None) ?s) = []"
    by (simp add: remap_defs example_defs)
  have sel: "selectValidationInFlightById (remapState (exampleTr 4 None) ?s)
               (IValidationError.id' ?err) = Some ?e"
    by (simp add: selectValidationInFlightById_def vs) (simp add: exampleInFlight_def)
  note rf = request_failed [OF refl refl, where tr = "exampleTr 4 None" and incomingState = ?s
      and validationError = ?err]
  from rf sel obtain before after where
    "validationsInFlight (remapState (exampleTr 4 None) ?s) = before @ ?e # after"
    "validationsInFlight ?s' = before @ after"
    by blast
  then have a: "validationsInFlight ?s' = []"
    by (simp add: vs Cons_eq_append_conv)
  from rf sel have "dirtiedRanges ?s' =
      mergeRanges (dirtiedRanges (remapState (exampleTr 4 None) ?s) @
        [mapRange (validationInputToRange (IValidationError.validationInput ?err))
           (IValidationInFlight.mapping ?e)])"
    by blast
  then have b: "dirtiedRanges ?s' = [\<lparr>from' = 0, to' = 10\<rparr>]"
    unfolding dr
    by (simp add: mergeRanges_def mapRange_def mapPos_def validationInputToRange_def
        exampleInFlight_def)
  from rf have c: "error ?s' = Some ''network error''"
    by simp
  from sel a b c show ?thesis by simp
qed

subsection \<open>Current validations and dirtied ranges\<close>

lemma clear_after_success:
  assumes "e \<in> set (validationsInFlight state)"
    and "IValidationInFlight.id' e = IValidationResponse.id' response"
  shows "clearOfDirtiedRanges (handleValidationRequestSuccess tr state (Some response))"
proof -
  have dr: "dirtiedRanges (handleValidationRequestSuccess tr state (Some response)) = dirtiedRanges state"
    by (simp add: handleValidationRequestSuccess_def Let_def split: option.splits)
  show ?thesis
    unfolding clearOfDirtiedRanges_def dr
    using assms success_currentValidations_clear by blast
qed

lemma clear_after_dirty:
  "v \<in> set (currentValidations (handleNewDirtyRanges tr state ranges)) \<Longrightarrow>
   r \<in> set ranges \<Longrightarrow> \<not> overlaps v r"
  by (simp add: handleNewDirtyRanges_def Let_def findOverlappingRangeIndex_none
      overlaps_sym [of v r])

lemma clear_kept_by_dirty:
  assumes "clearOfDirtiedRanges state"
  shows "clearOfDirtiedRanges (handleNewDirtyRanges tr state ranges)"
proof -
  have "\<not> overlaps v r"
    if "v \<in> set (currentValidations (handleNewDirtyRanges tr state ranges))"
      and "r \<in> set (dirtiedRanges (handleNewDirtyRanges tr state ranges))" for v r
  proof (cases "r \<in> set ranges")
    case True
    with that(1) show ?thesis by (rule clear_after_dirty)
  next
    case False
    with that(2) have "r \<in> set (dirtiedRanges state)"
      by (simp add: handleNewDirtyRanges_def Let_def)
    moreover from that(1) have "v \<in> set (currentValidations state)"
      by (simp add: handleNewDirtyRanges_def Let_def)
    ultimately show ?thesis
      using assms by (simp add: clearOfDirtiedRanges_def)
  qed
  then show ?thesis
    unfolding clearOfDirtiedRanges_def by blast
qed

text \<open>
  Claim C4, as the code has it. The transitions that dirty or accept establish that no
  current validation overlaps a dirtied range: after \<open>RangesDirtied(ranges)\<close> no element
  of \<open>currentValidations\<close> overlaps any of the new ranges, and none overlaps any dirtied
  range if none did before the action; after a \<open>RequestSucceeded\<close> that finds its entry
  in flight no element of \<open>currentValidations\<close> overlaps any element of
  \<open>dirtiedRanges\<close>; after a request for the dirty ranges or for the document
  \<open>dirtiedRanges\<close> is empty.
\<close>

theorem no_overlap_established:
  assumes "state = remapState tr incomingState"
  shows "(\<forall>v \<in> set (currentValidations
                      (validationPluginReducer tr incomingState (Some (APPLY_NEW_DIRTY_RANGES ranges)))).
            \<forall>r \<in> set ranges. \<not> overlaps v r)
       \<and> (clearOfDirtiedRanges state \<longrightarrow>
            clearOfDirtiedRanges
              (validationPluginReducer tr incomingState (Some (APPLY_NEW_DIRTY_RANGES ranges))))
       \<and> ((\<exists>e \<in> set (validationsInFlight state).
              IValidationInFlight.id' e = IValidationResponse.id' response) \<longrightarrow>
            clearOfDirtiedRanges
              (validationPluginReducer tr incomingState
                 (Some (VALIDATION_REQUEST_SUCCESS (Some response)))))
       \<and> dirtiedRanges
            (validationPluginReducer tr incomingState
               (Some (VALIDATION_REQUEST_FOR_DIRTY_RANGES expandRanges))) = []
       \<and> clearOfDirtiedRanges
            (validationPluginReducer tr incomingState
               (Some (VALIDATION_REQUEST_FOR_DIRTY_RANGES expandRanges)))
       \<and> dirtiedRanges
            (validationPluginReducer tr incomingState (Some VALIDATION_REQUEST_FOR_DOCUMENT)) = []
       \<and> clearOfDirtiedRanges
            (validationPluginReducer tr incomingState (Some VALIDATION_REQUEST_FOR_DOCUMENT))"
proof (intro conjI impI ballI)
  fix v r
  assume "v \<in> set (currentValidations
                      (validationPluginReducer tr incomingState (Some (APPLY_NEW_DIRTY_RANGES ranges))))"
    and "r \<in> set ranges"
  then show "\<not> overlaps v r"
    using clear_after_dirty [of v tr state ranges r] assms
    by (simp add: validationPluginReducer_def)
next
  assume "clearOfDirtiedRanges state"
  then show "clearOfDirtiedRanges
              (validationPluginReducer tr incomingState (Some (APPLY_NEW_DIRTY_RANGES ranges)))"
    using clear_kept_by_dirty [of state tr ranges] assms
    by (simp add: validationPluginReducer_def)
next
  assume "\<exists>e \<in> set (validationsInFlight state).
              IValidationInFlight.id' e = IValidationResponse.id' response"
  then show "clearOfDirtiedRanges
              (validationPluginReducer tr incomingState
                 (Some (VALIDATION_REQUEST_SUCCESS (Some response))))"
    using clear_after_success [of _ state response tr] assms
    by (auto simp add: validationPluginReducer_def)
next
  show "dirtiedRanges
            (validationPluginReducer tr incomingState
               (Some (VALIDATION_REQUEST_FOR_DIRTY_RANGES expandRanges))) = []"
    by (simp add: validationPluginReducer_def handleValidationRequestForDirtyRanges_def
        handleValidationRequestStart_def Let_def)
next
  show "dirtiedRanges
            (validationPluginReducer tr incomingState (Some VALIDATION_REQUEST_FOR_DOCUMENT)) = []"
    by (simp add: validationPluginReducer_def handleValidationRequestForDocument_def
        handleValidationRequestStart_def Let_def)
next
  show "clearOfDirtiedRanges
            (validationPluginReducer tr incomingState
               (Some (VALIDATION_REQUEST_FOR_DIRTY_RANGES expandRanges)))"
    by (simp add: validationPluginReducer_def handleValidationRequestForDirtyRanges_def
        handleValidationRequestStart_def Let_def clearOfDirtiedRanges_def)
next
  show "clearOfDirtiedRanges
            (validationPluginReducer tr incomingState (Some VALIDATION_REQUEST_FOR_DOCUMENT))"
    by (simp add: validationPluginReducer_def handleValidationRequestForDocument_def
        handleValidationRequestStart_def Let_def clearOfDirtiedRanges_def)
qed

text \<open>
  The claim as it was stated, an invariant of every reachable state, fails. First run: a
  request for \<open>[0,10)\<close> succeeds with a validation over \<open>[2,4)\<close>; a second request for
  \<open>[0,10)\<close> fails, which dirties \<open>[0,10)\<close> and leaves the validation in place. Second
  run: one response brings the overlapping outputs \<open>[0,5)\<close> and \<open>[3,8)\<close>, and both
  are accepted.
\<close>

theorem no_overlap_counterexample:
  "\<not> noOverlap (run exampleState
      [exampleTr 1 (Some (VALIDATION_REQUEST_FOR_DIRTY_RANGES (\<lambda>ranges d. [\<lparr>from' = 0, to' = 10\<rparr>]))),
       exampleTr 2 (Some (VALIDATION_REQUEST_SUCCESS
          (Some \<lparr>IValidationResponse.id' = toString 1,
                 validationOutputs = [exampleOutput ''m1'' 2 4]\<rparr>))),
       exampleTr 3 (Some (VALIDATION_REQUEST_FOR_DIRTY_RANGES (\<lambda>ranges d. [\<lparr>from' = 0, to' = 10\<rparr>]))),
       exampleTr 4 (Some (VALIDATION_REQUEST_ERROR
          \<lparr>IValidationError.id' = toString 3,
           IValidationError.validationInput = \<lparr>from' = 0, to' = 10, inputString = ''0123456789''\<rparr>,
           message = ''network error''\<rparr>))])
   \<and> \<not> noOverlap (run exampleState
      [exampleTr 1 (Some (VALIDATION_REQUEST_FOR_DIRTY_RANGES (\<lambda>ranges d. [\<lparr>from' = 0, to' = 10\<rparr>]))),
       exampleTr 2 (Some (VALIDATION_REQUEST_SUCCESS
          (Some \<lparr>IValidationResponse.id' = toString 1,
                 validationOutputs = [exampleOutput ''m1'' 0 5, exampleOutput ''m2'' 3 8]\<rparr>)))])"
  by (simp add: run_def validationPluginReducer_def handleValidationRequestForDirtyRanges_def
      handleValidationRequestStart_def handleValidationRequestError_def
      handleValidationRequestSuccess_def getCurrentValidationsFromValidationResponse_def
      removeOverlappingRanges_def Let_def
      selectValidationInFlightById_def without_def validationInputToRange_def
      remap_defs example_defs noOverlap_def clearOfDirtiedRanges_def overlaps_def)

text \<open>
  An instance: with \<open>[6,7)\<close> dirtied, a response with outputs over \<open>[2,4)\<close> and
  \<open>[5,8)\<close> leaves the first only.
\<close>

theorem no_overlap_established_witness:
  "exampleInFlight ''r1'' 0 10 \<in> set (validationsInFlight (remapState (exampleTr 3 None)
       (exampleState\<lparr>validationsInFlight := [exampleInFlight ''r1'' 0 10],
                      dirtiedRanges := [\<lparr>from' = 6, to' = 7\<rparr>]\<rparr>)))
   \<and> clearOfDirtiedRanges (validationPluginReducer (exampleTr 3 None)
       (exampleState\<lparr>validationsInFlight := [exampleInFlight ''r1'' 0 10],
                      dirtiedRanges := [\<lparr>from' = 6, to' = 7\<rparr>]\<rparr>)
       (Some (VALIDATION_REQUEST_SUCCESS
          (Some \<lparr>IValidationResponse.id' = ''r1'',
                 validationOutputs = [exampleOutput ''m1'' 2 4, exampleOutput ''m2'' 5 8]\<rparr>))))
   \<and> currentValidations (validationPluginReducer (exampleTr 3 None)
       (exampleState\<lparr>validationsInFlight := [exampleInFlight ''r1'' 0 10],
                      dirtiedRanges := [\<lparr>from' = 6, to' = 7\<rparr>]\<rparr>)
       (Some (VALIDATION_REQUEST_SUCCESS
          (Some \<lparr>IValidationResponse.id' = ''r1'',
                 validationOutputs = [exampleOutput ''m1'' 2 4, exampleOutput ''m2'' 5 8]\<rparr>))))
     = [exampleOutput ''m1'' 2 4]"
proof -
  let ?e = "exampleInFlight ''r1'' 0 10"
  let ?s = "exampleState\<lparr>validationsInFlight := [?e], dirtiedRanges := [\<lparr>from' = 6, to' = 7\<rparr>]\<rparr>"
  let ?resp = "\<lparr>IValidationResponse.id' = ''r1'',
                 validationOutputs = [exampleOutput ''m1'' 2 4, exampleOutput ''m2'' 5 8]\<rparr>"
  have h1: "?e \<in> set (validationsInFlight (remapState (exampleTr 3 None) ?s))"
    by (simp add: remap_defs example_defs)
  have h2: "IValidationInFlight.id' ?e = IValidationResponse.id' ?resp"
    by (simp add: exampleInFlight_def)
  have "clearOfDirtiedRanges (validationPluginReducer (exampleTr 3 None) ?s
          (Some (VALIDATION_REQUEST_SUCCESS (Some ?resp))))"
    using no_overlap_established [OF refl, where tr = "exampleTr 3 None" and incomingState = ?s
        and response = ?resp] h1 h2 by blast
  moreover have "currentValidations (validationPluginReducer (exampleTr 3 None) ?s
          (Some (VALIDATION_REQUEST_SUCCESS (Some ?resp)))) = [exampleOutput ''m1'' 2 4]"
    by (simp add: validationPluginReducer_def handleValidationRequestSuccess_def
        getCurrentValidationsFromValidationResponse_def removeOverlappingRanges_def Let_def
        selectValidationInFlightById_def remap_defs example_defs)
  ultimately show ?thesis
    using h1 by simp
qed

end
